theory Spec2Isabelle
  imports Main "HOL-Library.Word"
begin

section \<open>The program representation read by the code generator\<close>

text \<open>
  The code generator (\<^verbatim>\<open>src/compiler/codegen/codegen.cc\<close>) reads the resolved AST
  through pointers. The AST is declared in \<^verbatim>\<open>compiler/ast.h\<close>; the records below carry
  the members that \<^verbatim>\<open>codegen.cc\<close> dereferences. A nullable pointer is an \<open>option\<close>, an interned
  type pointer is a number (pointer equality is equality of the numbers), a
  \<^verbatim>\<open>std::vector\<close> is a list.
\<close>

type_synonym byte = "8 word"

type_synonym type_ptr = nat

type_synonym source_range = "nat \<times> nat"

record ast_name =
  name_text :: string
  name_source_range :: source_range

record fn_signature =
  sig_generics :: "string list"
  sig_receiver :: "string option"
  sig_arguments :: "type_ptr list"
  sig_return_type :: type_ptr

record method_def =
  method_name :: ast_name
  method_signature :: fn_signature
  method_body :: "nat option"

datatype entity_kind = Class | Interface | Primitive

record entity_def =
  entity_name :: ast_name
  entity_kind :: entity_kind
  entity_generics :: "string list"
  entity_methods :: "method_def list"

record program =
  program_entities :: "entity_def list"

text \<open>
  The compilation context. \<^verbatim>\<open>codegen.cc\<close> uses it for two things: the interned unit
  type (\<^verbatim>\<open>mk_unit\<close>) and printing diagnostics to \<^verbatim>\<open>std::cerr\<close>.
\<close>

record compiler_context =
  mk_unit :: type_ptr

datatype diagnostic_kind = Error | Note_kind

datatype diagnostic =
  NoMainClass | MainNotAClass | MainClassIsGeneric | NoMainMethod | InvalidMainSignature

text \<open>
  The error stream is the list of what was printed to it, oldest first. Each of the
  three printing members of \<^verbatim>\<open>Context\<close> appends one entry that records the call's
  arguments.
\<close>

datatype stream_entry =
  GlobalDiagnostic diagnostic_kind diagnostic
  | Diagnostic nat diagnostic_kind diagnostic
  | LineDiagnostic source_range

type_synonym ostream = "stream_entry list"

definition print_global_diagnostic ::
  "ostream \<Rightarrow> diagnostic_kind \<Rightarrow> diagnostic \<Rightarrow> ostream" where
  "print_global_diagnostic cerr k d = cerr @ [GlobalDiagnostic k d]"

definition print_diagnostic ::
  "ostream \<Rightarrow> nat \<Rightarrow> diagnostic_kind \<Rightarrow> diagnostic \<Rightarrow> ostream" where
  "print_diagnostic cerr loc k d = cerr @ [Diagnostic loc k d]"

definition print_line_diagnostic :: "ostream \<Rightarrow> source_range \<Rightarrow> ostream" where
  "print_line_diagnostic cerr r = cerr @ [LineDiagnostic r]"

text \<open>
  Modelled from the spec: \<^verbatim>\<open>Program::find_entity\<close> and \<^verbatim>\<open>lookup_member<Method>\<close> are
  defined outside \<^verbatim>\<open>codegen.cc\<close>. The spec describes them as the lookup of an entity of
  the program by name and of a method of an entity by name; a null result means there is
  none.
\<close>

definition find_entity :: "program \<Rightarrow> string \<Rightarrow> entity_def option" where
  "find_entity p n = find (\<lambda>e. name_text (entity_name e) = n) (program_entities p)"

definition lookup_member_Method :: "entity_def \<Rightarrow> string \<Rightarrow> method_def option" where
  "lookup_member_Method e n = find (\<lambda>m. name_text (method_name m) = n) (entity_methods e)"

text \<open>
  \<^verbatim>\<open>Instantiation\<close> maps generic parameters to type arguments; \<^verbatim>\<open>Instantiation::empty()\<close>
  is the one with no arguments. \<^verbatim>\<open>CodegenItem<T>\<close> pairs a definition with an
  instantiation.
\<close>

type_synonym instantiation_args = "type_ptr list"

definition Instantiation_empty :: instantiation_args where
  "Instantiation_empty = []"

record 'a codegen_item =
  item_definition :: 'a
  item_instantiation :: instantiation_args

definition CodegenItem :: "'a \<Rightarrow> instantiation_args \<Rightarrow> 'a codegen_item" where
  "CodegenItem d i = \<lparr>item_definition = d, item_instantiation = i\<rparr>"

section \<open>Entry-point resolution\<close>

definition is_valid_main_signature :: "compiler_context \<Rightarrow> fn_signature \<Rightarrow> bool" where
  "is_valid_main_signature ctx s \<longleftrightarrow>
     sig_generics s = [] \<and> sig_receiver s = None \<and> sig_arguments s = [] \<and>
     sig_return_type s = mk_unit ctx"

text \<open>
  \<^verbatim>\<open>find_entry\<close> returns the optional pair together with the error stream after its
  diagnostics. The five early returns of the source are the five \<open>None\<close> branches, in
  the source's order.
\<close>

definition find_entry ::
  "compiler_context \<Rightarrow> program \<Rightarrow> ostream \<Rightarrow>
   (entity_def codegen_item \<times> method_def codegen_item) option \<times> ostream" where
  "find_entry ctx p cerr =
     (case find_entity p ''Main'' of
        None \<Rightarrow> (None, print_global_diagnostic cerr Error NoMainClass)
      | Some main_class \<Rightarrow>
          if entity_kind main_class \<noteq> Class then
            (None,
             print_line_diagnostic
               (print_diagnostic cerr (fst (name_source_range (entity_name main_class)))
                  Error MainNotAClass)
               (name_source_range (entity_name main_class)))
          else if entity_generics main_class \<noteq> [] then
            (None,
             print_line_diagnostic
               (print_diagnostic cerr (fst (name_source_range (entity_name main_class)))
                  Error MainClassIsGeneric)
               (name_source_range (entity_name main_class)))
          else
            (case lookup_member_Method main_class ''main'' of
               None \<Rightarrow>
                 (None,
                  print_line_diagnostic
                    (print_diagnostic cerr (fst (name_source_range (entity_name main_class)))
                       Error NoMainMethod)
                    (name_source_range (entity_name main_class)))
             | Some main_method \<Rightarrow>
                 if \<not> is_valid_main_signature ctx (method_signature main_method) then
                   (None,
                    print_line_diagnostic
                      (print_diagnostic cerr
                         (fst (name_source_range (method_name main_method)))
                         Error InvalidMainSignature)
                      (name_source_range (method_name main_method)))
                 else
                   (Some (CodegenItem main_class Instantiation_empty,
                          CodegenItem main_method Instantiation_empty),
                    cerr)))"

section \<open>Failures of the pipeline\<close>

text \<open>
  Past entry-point resolution the source can leave \<^verbatim>\<open>codegen\<close> without returning:
  \<^verbatim>\<open>std::map::at\<close> throws on a missing key, \<^verbatim>\<open>std::optional::value\<close> throws on an
  empty optional, and the generator and the emitters abort on a construction error.
  Each is a value of \<open>error\<close>; a function that can fail returns \<open>error + 'a\<close>.
\<close>

datatype error =
  OutOfRange | BadOptionalAccess | TruncationFailed | LabelRebound | LabelUnbound
  | EmitterFailed

definition and_then :: "error + 'a \<Rightarrow> ('a \<Rightarrow> error + 'b) \<Rightarrow> error + 'b" where
  "and_then r f = (case r of Inl e \<Rightarrow> Inl e | Inr x \<Rightarrow> f x)"

definition at :: "('k \<times> 'v) list \<Rightarrow> 'k \<Rightarrow> error + 'v" where
  "at m k = (case map_of m k of None \<Rightarrow> Inl OutOfRange | Some v \<Rightarrow> Inr v)"

definition optional_value :: "'a option \<Rightarrow> error + 'a" where
  "optional_value x = (case x of None \<Rightarrow> Inl BadOptionalAccess | Some v \<Rightarrow> Inr v)"

section \<open>The relocatable generator\<close>

text \<open>
  Modelled from the spec: the class \<^verbatim>\<open>Generator\<close> is defined in
  \<^verbatim>\<open>compiler/codegen/generator.h\<close>, outside \<^verbatim>\<open>codegen.cc\<close>. The spec describes it as an
  append-only byte buffer with labels that are unresolved or bound, and pending
  relocations (buffer position, width, label). Scalars are appended in one fixed byte
  order, which the spec leaves open: it is a field of the state. A label is its
  number; \<open>defined\<close> holds the labels bound so far with their values. Handing out
  fresh labels is not part of the model.
\<close>

datatype byte_order = LittleEndian | BigEndian

fun le_bytes :: "nat \<Rightarrow> nat \<Rightarrow> byte list" where
  "le_bytes 0 v = []"
| "le_bytes (Suc w) v = word_of_nat (v mod 256) # le_bytes w (v div 256)"

fun le_value :: "byte list \<Rightarrow> nat" where
  "le_value [] = 0"
| "le_value (b # bs) = unat b + 256 * le_value bs"

definition encode :: "byte_order \<Rightarrow> nat \<Rightarrow> nat \<Rightarrow> byte list" where
  "encode ord w v = (case ord of LittleEndian \<Rightarrow> le_bytes w v | BigEndian \<Rightarrow> rev (le_bytes w v))"

definition decode :: "byte_order \<Rightarrow> byte list \<Rightarrow> nat" where
  "decode ord bs = (case ord of LittleEndian \<Rightarrow> le_value bs | BigEndian \<Rightarrow> le_value (rev bs))"

record generator =
  order :: byte_order
  code :: "byte list"
  defined :: "nat \<rightharpoonup> nat"
  relocations :: "(nat \<times> nat \<times> nat) list"

definition Generator :: "byte_order \<Rightarrow> generator" where
  "Generator ord = \<lparr>order = ord, code = [], defined = Map.empty, relocations = []\<rparr>"

definition u8 :: "generator \<Rightarrow> 8 word \<Rightarrow> generator" where
  "u8 gen x = gen\<lparr>code := code gen @ encode (order gen) 1 (unat x)\<rparr>"

definition u16 :: "generator \<Rightarrow> 16 word \<Rightarrow> generator" where
  "u16 gen x = gen\<lparr>code := code gen @ encode (order gen) 2 (unat x)\<rparr>"

definition u32 :: "generator \<Rightarrow> 32 word \<Rightarrow> generator" where
  "u32 gen x = gen\<lparr>code := code gen @ encode (order gen) 4 (unat x)\<rparr>"

text \<open>
  The relocation reference: a placeholder of \<open>w\<close> bytes at the current position, to be
  overwritten with the value of label \<open>l\<close>. \<^verbatim>\<open>gen.u32(label)\<close> is the one of four bytes.
\<close>

definition reference :: "generator \<Rightarrow> nat \<Rightarrow> nat \<Rightarrow> generator" where
  "reference gen w l =
     gen\<lparr>code := code gen @ replicate w 0,
         relocations := relocations gen @ [(length (code gen), w, l)]\<rparr>"

definition u32_label :: "generator \<Rightarrow> nat \<Rightarrow> generator" where
  "u32_label gen l = reference gen 4 l"

text \<open>
  Binding a label twice is a fatal construction error. The spec introduces
  \<^verbatim>\<open>define_relocatable\<close> as the variant of \<^verbatim>\<open>define_label\<close> whose value is given instead
  of being the current offset, so the rule is stated once, on the variant.
\<close>

definition define_relocatable :: "generator \<Rightarrow> nat \<Rightarrow> nat \<Rightarrow> error + generator" where
  "define_relocatable gen l v =
     (case defined gen l of
        None \<Rightarrow> Inr (gen\<lparr>defined := (defined gen)(l \<mapsto> v)\<rparr>)
      | Some _ \<Rightarrow> Inl LabelRebound)"

definition define_label :: "generator \<Rightarrow> nat \<Rightarrow> error + generator" where
  "define_label gen l = define_relocatable gen l (length (code gen))"

fun write_bytes :: "byte list \<Rightarrow> nat \<Rightarrow> byte list \<Rightarrow> byte list" where
  "write_bytes buf pos [] = buf"
| "write_bytes buf pos (b # bs) = write_bytes (buf[pos := b]) (Suc pos) bs"

text \<open>
  The fixup pass walks the relocations in the order they were recorded, requires each
  one's label to be bound and overwrites the placeholder with the label's value. A label
  that was never bound is fatal, and nothing else is. The placeholder has a fixed width:
  \<open>encode\<close> writes the low bytes of a value that does not fit.
\<close>

fun resolve ::
  "byte_order \<Rightarrow> (nat \<rightharpoonup> nat) \<Rightarrow> (nat \<times> nat \<times> nat) list \<Rightarrow> byte list \<Rightarrow> error + byte list" where
  "resolve ord tab [] buf = Inr buf"
| "resolve ord tab ((pos, w, l) # rs) buf =
     (case tab l of
        None \<Rightarrow> Inl LabelUnbound
      | Some v \<Rightarrow> resolve ord tab rs (write_bytes buf pos (encode ord w v)))"

definition finish :: "generator \<Rightarrow> error + generator" where
  "finish gen =
     and_then (resolve (order gen) (defined gen) (relocations gen) (code gen))
       (\<lambda>buf. Inr (gen\<lparr>code := buf\<rparr>))"

text \<open>
  What an emitter can do to the generator: the calls of its interface. An emitter is
  handed the generator and answers with the calls it makes, in order.
\<close>

datatype gen_op =
  OpU8 "8 word" | OpU16 "16 word" | OpU32 "32 word" | OpReference nat nat
  | OpDefineLabel nat | OpDefineRelocatable nat nat

fun apply_op :: "generator \<Rightarrow> gen_op \<Rightarrow> error + generator" where
  "apply_op gen (OpU8 x) = Inr (u8 gen x)"
| "apply_op gen (OpU16 x) = Inr (u16 gen x)"
| "apply_op gen (OpU32 x) = Inr (u32 gen x)"
| "apply_op gen (OpReference w l) = Inr (reference gen w l)"
| "apply_op gen (OpDefineLabel l) = define_label gen l"
| "apply_op gen (OpDefineRelocatable l v) = define_relocatable gen l v"

fun apply_ops :: "generator \<Rightarrow> gen_op list \<Rightarrow> error + generator" where
  "apply_ops gen [] = Inr gen"
| "apply_ops gen (op # ops) = and_then (apply_op gen op) (\<lambda>gen'. apply_ops gen' ops)"

section \<open>Reachability and the collaborators of the pipeline\<close>

text \<open>
  \<^verbatim>\<open>Reachability\<close> as \<^verbatim>\<open>codegen.cc\<close> reads it: maps iterated in a stable order, so
  association lists in that order; \<^verbatim>\<open>at\<close> is the lookup that throws and \<^verbatim>\<open>size\<close> is
  the length. A method's label is a \<^verbatim>\<open>std::optional\<close>.
\<close>

record method_reachability =
  label :: "nat option"

record entity_reachability =
  descriptor :: nat
  methods :: "(method_def codegen_item \<times> method_reachability) list"

record reachability =
  entities :: "(entity_def codegen_item \<times> entity_reachability) list"

type_synonym fn_analysis = nat

record analysis_results =
  analysis_functions :: "(method_def \<times> fn_analysis) list"

type_synonym selector_table = "(string \<times> nat) list"

text \<open>
  The functions that \<^verbatim>\<open>codegen.cc\<close> calls and that are defined in other files are
  parameters of the model: the reachability analysis (in the model it hands out label
  numbers and emits nothing), the selector table, the two emitters, and the narrowing
  \<^verbatim>\<open>truncate<uint16_t>\<close> of \<^verbatim>\<open>ds/helpers.h\<close>, which may fail. The generator's byte
  order is a parameter as well.
\<close>

record collaborators =
  byte_order :: byte_order
  compute_reachability ::
    "compiler_context \<Rightarrow> generator \<Rightarrow> entity_def codegen_item \<Rightarrow> method_def codegen_item \<Rightarrow>
     analysis_results \<Rightarrow> error + reachability"
  SelectorTable_build :: "reachability \<Rightarrow> selector_table"
  emit_descriptor ::
    "selector_table \<Rightarrow> generator \<Rightarrow> entity_def codegen_item \<Rightarrow> entity_reachability \<Rightarrow>
     error + gen_op list"
  emit_function ::
    "compiler_context \<Rightarrow> reachability \<Rightarrow> selector_table \<Rightarrow> generator \<Rightarrow>
     method_def codegen_item \<Rightarrow> fn_analysis \<Rightarrow> error + gen_op list"
  truncate_uint16 :: "nat \<Rightarrow> error + 16 word"

text \<open>
  \<^verbatim>\<open>truncate\<close> is defined in \<^verbatim>\<open>ds/helpers.h\<close> and the spec does not describe it, so
  it stays a parameter. Two narrowings to \<^verbatim>\<open>uint16_t\<close> serve in the examples: one that
  fails on a value that does not fit, and one that keeps the low 16 bits, as a
  \<^verbatim>\<open>static_cast\<close> does.
\<close>

definition truncate_checked :: "nat \<Rightarrow> error + 16 word" where
  "truncate_checked n = (if n < 65536 then Inr (word_of_nat n) else Inl TruncationFailed)"


section \<open>Emission\<close>

definition emit_program_header ::
  "collaborators \<Rightarrow> reachability \<Rightarrow> generator \<Rightarrow> entity_def codegen_item \<Rightarrow>
   method_def codegen_item \<Rightarrow> error + generator" where
  "emit_program_header C reach gen main_class main_method =
     and_then (at (entities reach) main_class) (\<lambda>class_info.
     and_then (at (methods class_info) main_method) (\<lambda>method_info.
     and_then (optional_value (label method_info)) (\<lambda>l.
     and_then (truncate_uint16 C (length (entities reach))) (\<lambda>n.
       Inr (u16 (u32_label gen l) n)))))"

text \<open>The loop of \<^verbatim>\<open>emit_descriptors\<close>, with its counter \<^verbatim>\<open>index\<close>.\<close>

fun emit_descriptors_from ::
  "collaborators \<Rightarrow> selector_table \<Rightarrow> nat \<Rightarrow>
   (entity_def codegen_item \<times> entity_reachability) list \<Rightarrow> generator \<Rightarrow> error + generator" where
  "emit_descriptors_from C selectors index [] gen = Inr gen"
| "emit_descriptors_from C selectors index ((entity, info) # rest) gen =
     and_then (define_relocatable gen (descriptor info) index) (\<lambda>gen1.
     and_then (emit_descriptor C selectors gen1 entity info) (\<lambda>ops.
     and_then (apply_ops gen1 ops) (\<lambda>gen2.
       emit_descriptors_from C selectors (index + 1) rest gen2)))"

definition emit_descriptors ::
  "collaborators \<Rightarrow> reachability \<Rightarrow> selector_table \<Rightarrow> generator \<Rightarrow> error + generator" where
  "emit_descriptors C reach selectors gen =
     emit_descriptors_from C selectors 0 (entities reach) gen"

text \<open>The inner and the outer loop of \<^verbatim>\<open>emit_functions\<close>.\<close>

fun emit_functions_of ::
  "collaborators \<Rightarrow> compiler_context \<Rightarrow> analysis_results \<Rightarrow> reachability \<Rightarrow> selector_table \<Rightarrow>
   (method_def codegen_item \<times> method_reachability) list \<Rightarrow> generator \<Rightarrow> error + generator" where
  "emit_functions_of C ctx analysis reach selectors [] gen = Inr gen"
| "emit_functions_of C ctx analysis reach selectors ((method, method_info) # rest) gen =
     (if method_body (item_definition method) = None then
        emit_functions_of C ctx analysis reach selectors rest gen
      else
        and_then (optional_value (label method_info)) (\<lambda>l.
        and_then (define_label gen l) (\<lambda>gen1.
        and_then (at (analysis_functions analysis) (item_definition method)) (\<lambda>fn_analysis.
        and_then (emit_function C ctx reach selectors gen1 method fn_analysis) (\<lambda>ops.
        and_then (apply_ops gen1 ops) (\<lambda>gen2.
          emit_functions_of C ctx analysis reach selectors rest gen2))))))"

fun emit_functions_over ::
  "collaborators \<Rightarrow> compiler_context \<Rightarrow> analysis_results \<Rightarrow> reachability \<Rightarrow> selector_table \<Rightarrow>
   (entity_def codegen_item \<times> entity_reachability) list \<Rightarrow> generator \<Rightarrow> error + generator" where
  "emit_functions_over C ctx analysis reach selectors [] gen = Inr gen"
| "emit_functions_over C ctx analysis reach selectors ((entity, entity_info) # rest) gen =
     and_then (emit_functions_of C ctx analysis reach selectors (methods entity_info) gen)
       (\<lambda>gen1. emit_functions_over C ctx analysis reach selectors rest gen1)"

definition emit_functions ::
  "collaborators \<Rightarrow> compiler_context \<Rightarrow> analysis_results \<Rightarrow> reachability \<Rightarrow> selector_table \<Rightarrow>
   generator \<Rightarrow> error + generator" where
  "emit_functions C ctx analysis reach selectors gen =
     emit_functions_over C ctx analysis reach selectors (entities reach) gen"

section \<open>The pipeline\<close>

text \<open>
  \<open>emit_all\<close> is the body of \<^verbatim>\<open>codegen\<close> from the construction of the generator to the
  call of \<^verbatim>\<open>emit_functions\<close>. \<^verbatim>\<open>codegen\<close> returns the bytes (or fails) together with the
  error stream. What the analysis and the emitters print through the context is outside
  \<^verbatim>\<open>codegen.cc\<close> and not part of the model.
\<close>

definition emit_all ::
  "collaborators \<Rightarrow> compiler_context \<Rightarrow> analysis_results \<Rightarrow>
   entity_def codegen_item \<times> method_def codegen_item \<Rightarrow> error + generator" where
  "emit_all C ctx analysis entry =
     and_then (compute_reachability C ctx (Generator (byte_order C)) (fst entry) (snd entry) analysis)
       (\<lambda>reach.
     and_then (emit_program_header C reach (Generator (byte_order C)) (fst entry) (snd entry))
       (\<lambda>gen1.
     and_then (emit_descriptors C reach (SelectorTable_build C reach) gen1) (\<lambda>gen2.
       emit_functions C ctx analysis reach (SelectorTable_build C reach) gen2)))"

definition codegen ::
  "collaborators \<Rightarrow> compiler_context \<Rightarrow> program \<Rightarrow> analysis_results \<Rightarrow> ostream \<Rightarrow>
   (error + byte list) \<times> ostream" where
  "codegen C ctx p analysis cerr =
     (case find_entry ctx p cerr of
        (None, cerr') \<Rightarrow> (Inr [], cerr')
      | (Some entry, cerr') \<Rightarrow>
          (and_then (emit_all C ctx analysis entry) (\<lambda>gen.
           and_then (finish gen) (\<lambda>gen'. Inr (code gen'))),
           cerr'))"

section \<open>The function emitter as the spec words it\<close>

text \<open>
  The spec describes the function emitter without the test for a body: it runs over the
  reachable methods that have a body, in the graph's order, binds each one's label at
  the current offset and emits the body. \<open>emit_bodies\<close> is that description, to be
  compared with the nested loops of \<open>emit_functions\<close>.
\<close>

definition has_body :: "method_def codegen_item \<times> method_reachability \<Rightarrow> bool" where
  "has_body mi \<longleftrightarrow> method_body (item_definition (fst mi)) \<noteq> None"

definition reachable_methods ::
  "reachability \<Rightarrow> (method_def codegen_item \<times> method_reachability) list" where
  "reachable_methods reach =
     concat (map (\<lambda>(entity, entity_info). methods entity_info) (entities reach))"

fun emit_bodies ::
  "collaborators \<Rightarrow> compiler_context \<Rightarrow> analysis_results \<Rightarrow> reachability \<Rightarrow> selector_table \<Rightarrow>
   (method_def codegen_item \<times> method_reachability) list \<Rightarrow> generator \<Rightarrow> error + generator" where
  "emit_bodies C ctx analysis reach selectors [] gen = Inr gen"
| "emit_bodies C ctx analysis reach selectors ((method, method_info) # rest) gen =
     and_then (optional_value (label method_info)) (\<lambda>l.
     and_then (define_label gen l) (\<lambda>gen1.
     and_then (at (analysis_functions analysis) (item_definition method)) (\<lambda>fn_analysis.
     and_then (emit_function C ctx reach selectors gen1 method fn_analysis) (\<lambda>ops.
     and_then (apply_ops gen1 ops) (\<lambda>gen2.
       emit_bodies C ctx analysis reach selectors rest gen2)))))"

section \<open>How the generator's state develops\<close>

text \<open>
  \<open>chain n rs m\<close>: the relocations \<open>rs\<close> lie one after the other between the positions
  \<open>n\<close> and \<open>m\<close>. \<open>grows g g'\<close>: \<open>g'\<close> is \<open>g\<close> with bytes appended, relocations
  added inside the appended bytes, and labels bound that were unbound.
\<close>

fun chain :: "nat \<Rightarrow> (nat \<times> nat \<times> nat) list \<Rightarrow> nat \<Rightarrow> bool" where
  "chain n [] m \<longleftrightarrow> n \<le> m"
| "chain n ((pos, w, l) # rs) m \<longleftrightarrow> n \<le> pos \<and> chain (pos + w) rs m"

definition grows :: "generator \<Rightarrow> generator \<Rightarrow> bool" where
  "grows g g' \<longleftrightarrow>
     order g' = order g \<and>
     (\<exists>ext new. code g' = code g @ ext \<and> relocations g' = relocations g @ new \<and>
        chain (length (code g)) new (length (code g'))) \<and>
     defined g \<subseteq>\<^sub>m defined g'"

section \<open>Example programs\<close>

text \<open>
  A context whose unit type is type 0; the method \<^verbatim>\<open>main(): Unit { ... }\<close>, the same
  method with one argument, and a method without a body; the entity \<^verbatim>\<open>Main\<close> as a
  class, as a class with a generic parameter and as an interface.
\<close>

definition ctx0 :: compiler_context where
  "ctx0 = \<lparr>mk_unit = 0\<rparr>"

definition main_ok :: method_def where
  "main_ok =
     \<lparr>method_name = \<lparr>name_text = ''main'', name_source_range = (20, 24)\<rparr>,
      method_signature =
        \<lparr>sig_generics = [], sig_receiver = None, sig_arguments = [], sig_return_type = 0\<rparr>,
      method_body = Some 0\<rparr>"

definition main_with_argument :: method_def where
  "main_with_argument =
     \<lparr>method_name = \<lparr>name_text = ''main'', name_source_range = (20, 24)\<rparr>,
      method_signature =
        \<lparr>sig_generics = [], sig_receiver = None, sig_arguments = [1], sig_return_type = 0\<rparr>,
      method_body = Some 0\<rparr>"

definition abstract_method :: method_def where
  "abstract_method =
     \<lparr>method_name = \<lparr>name_text = ''run'', name_source_range = (40, 43)\<rparr>,
      method_signature =
        \<lparr>sig_generics = [], sig_receiver = Some ''self'', sig_arguments = [], sig_return_type = 0\<rparr>,
      method_body = None\<rparr>"

definition Main_class :: "method_def list \<Rightarrow> entity_def" where
  "Main_class ms =
     \<lparr>entity_name = \<lparr>name_text = ''Main'', name_source_range = (6, 10)\<rparr>,
      entity_kind = Class, entity_generics = [], entity_methods = ms\<rparr>"

definition Main_generic :: "method_def list \<Rightarrow> entity_def" where
  "Main_generic ms =
     \<lparr>entity_name = \<lparr>name_text = ''Main'', name_source_range = (6, 10)\<rparr>,
      entity_kind = Class, entity_generics = [''T''], entity_methods = ms\<rparr>"

definition Main_interface :: "method_def list \<Rightarrow> entity_def" where
  "Main_interface ms =
     \<lparr>entity_name = \<lparr>name_text = ''Main'', name_source_range = (10, 14)\<rparr>,
      entity_kind = Interface, entity_generics = [], entity_methods = ms\<rparr>"

definition Other_class :: entity_def where
  "Other_class =
     \<lparr>entity_name = \<lparr>name_text = ''Other'', name_source_range = (60, 65)\<rparr>,
      entity_kind = Class, entity_generics = [], entity_methods = [abstract_method]\<rparr>"

text \<open>
  The program \<^verbatim>\<open>class Main { main(): Unit { ... } }\<close> and programs that fail one check
  of the entry-point resolver each; the analysis results and the entry point of the
  first, and three reachability graphs: \<open>reach0\<close> holds \<^verbatim>\<open>Main\<close> with
  \<^verbatim>\<open>main\<close>; \<open>reach1\<close> holds a method without a body before \<^verbatim>\<open>main\<close>;
  \<open>reach2\<close> holds a second entity.
\<close>

definition p0 :: program where
  "p0 = \<lparr>program_entities = [Main_class [main_ok]]\<rparr>"

definition p_empty :: program where
  "p_empty = \<lparr>program_entities = []\<rparr>"

definition p_interface :: program where
  "p_interface = \<lparr>program_entities = [Main_interface [main_ok]]\<rparr>"

definition p_generic :: program where
  "p_generic = \<lparr>program_entities = [Main_generic [main_ok]]\<rparr>"

definition p_generic_argument :: program where
  "p_generic_argument = \<lparr>program_entities = [Main_generic [main_with_argument]]\<rparr>"

definition p_argument :: program where
  "p_argument = \<lparr>program_entities = [Main_class [main_with_argument]]\<rparr>"

definition p_no_main :: program where
  "p_no_main = \<lparr>program_entities = [Main_class [abstract_method]]\<rparr>"

definition a0 :: analysis_results where
  "a0 = \<lparr>analysis_functions = [(main_ok, 0)]\<rparr>"

definition entry0 :: "entity_def codegen_item \<times> method_def codegen_item" where
  "entry0 = (CodegenItem (Main_class [main_ok]) Instantiation_empty,
             CodegenItem main_ok Instantiation_empty)"

definition reach0 :: reachability where
  "reach0 =
     \<lparr>entities =
        [(fst entry0, \<lparr>descriptor = 3, methods = [(snd entry0, \<lparr>label = Some 5\<rparr>)]\<rparr>)]\<rparr>"

definition reach1 :: reachability where
  "reach1 =
     \<lparr>entities =
        [(fst entry0,
          \<lparr>descriptor = 3,
           methods = [(CodegenItem abstract_method Instantiation_empty, \<lparr>label = None\<rparr>),
                      (snd entry0, \<lparr>label = Some 5\<rparr>)]\<rparr>)]\<rparr>"

definition reach2 :: reachability where
  "reach2 =
     \<lparr>entities =
        [(fst entry0, \<lparr>descriptor = 10, methods = [(snd entry0, \<lparr>label = Some 5\<rparr>)]\<rparr>),
         (CodegenItem Other_class Instantiation_empty, \<lparr>descriptor = 11, methods = []\<rparr>)]\<rparr>"

text \<open>
  Collaborators for the examples: little-endian bytes, the analysis answers \<open>reach0\<close>,
  every descriptor is the byte 1 and every body the byte 7, and the narrowing is the
  checked one.
\<close>

definition C0 :: collaborators where
  "C0 = \<lparr>byte_order = LittleEndian,
          compute_reachability = (\<lambda>ctx gen e m a. Inr reach0),
          SelectorTable_build = (\<lambda>r. []),
          emit_descriptor = (\<lambda>s g e i. Inr [OpU8 1]),
          emit_function = (\<lambda>ctx r s g m a. Inr [OpU8 7]),
          truncate_uint16 = truncate_checked\<rparr>"






section \<open>Auxiliary facts\<close>

lemma find_entity_None:
  "(find_entity p n = None) = (\<forall>e \<in> set (program_entities p). name_text (entity_name e) \<noteq> n)"
  by (auto simp add: find_entity_def find_None_iff)

lemmas print_defs = print_global_diagnostic_def print_diagnostic_def print_line_diagnostic_def

lemma and_then_Inl [simp]: "and_then (Inl e) f = Inl e"
  by (simp add: and_then_def)

lemma and_then_Inr [simp]: "and_then (Inr x) f = f x"
  by (simp add: and_then_def)

lemma and_then_eq_Inr:
  "and_then r f = Inr y \<longleftrightarrow> (\<exists>x. r = Inr x \<and> f x = Inr y)"
  by (cases r) simp_all

lemma length_le_bytes [simp]: "length (le_bytes w v) = w"
  by (induction w arbitrary: v) simp_all

lemma le_value_le_bytes: "le_value (le_bytes w v) = v mod 256 ^ w"
proof (induction w arbitrary: v)
  case 0
  show ?case by simp
next
  case (Suc w)
  have "unat (word_of_nat (v mod 256) :: byte) = v mod 256"
    by (simp add: unat_of_nat)
  then show ?case
    by (simp add: Suc.IH mod_mult2_eq)
qed

lemma length_encode [simp]: "length (encode ord w v) = w"
  by (cases ord) (simp_all add: encode_def)

lemma decode_encode: "decode ord (encode ord w v) = v mod 256 ^ w"
  by (cases ord) (simp_all add: encode_def decode_def le_value_le_bytes)

lemma decode_encode_fits: "v < 2 ^ (8 * w) \<Longrightarrow> decode ord (encode ord w v) = v"
proof -
  assume "v < 2 ^ (8 * w)"
  moreover have "(2::nat) ^ (8 * w) = 256 ^ w"
    by (simp add: power_mult)
  ultimately show ?thesis
    by (simp add: decode_encode)
qed

lemma length_write_bytes [simp]: "length (write_bytes buf pos bs) = length buf"
  by (induction bs arbitrary: buf pos) simp_all

lemma take_write_bytes: "n \<le> pos \<Longrightarrow> take n (write_bytes buf pos bs) = take n buf"
  by (induction bs arbitrary: buf pos) simp_all

lemma write_bytes_over:
  "length old = length bs \<Longrightarrow>
   write_bytes (pre @ old @ post) (length pre) bs = pre @ bs @ post"
proof (induction bs arbitrary: pre old)
  case Nil
  then show ?case by simp
next
  case (Cons b bs)
  then obtain o1 old' where old: "old = o1 # old'" and len: "length old' = length bs"
    by (cases old) auto
  have "(pre @ old @ post)[length pre := b] = (pre @ [b]) @ old' @ post"
    by (simp add: old list_update_append)
  moreover have "write_bytes ((pre @ [b]) @ old' @ post) (length (pre @ [b])) bs
                   = (pre @ [b]) @ bs @ post"
    by (rule Cons.IH [OF len])
  ultimately show ?case by simp
qed

lemma chain_le: "chain n rs m \<Longrightarrow> n \<le> m"
  by (induction n rs m rule: chain.induct) auto

lemma chain_append: "chain a xs b \<Longrightarrow> chain b ys c \<Longrightarrow> chain a (xs @ ys) c"
proof (induction a xs b rule: chain.induct)
  case (1 n m)
  then show ?case by (induction m ys c rule: chain.induct) (auto dest: chain_le)
next
  case (2 n pos w l rs m)
  then show ?case by simp
qed

lemma chain_mono: "chain a xs b \<Longrightarrow> a' \<le> a \<Longrightarrow> chain a' xs b"
  by (cases xs) auto

lemma grows_refl: "grows g g"
  by (simp add: grows_def)

lemma grows_trans:
  assumes "grows g1 g2" and "grows g2 g3"
  shows "grows g1 g3"
proof -
  from assms(1) obtain e1 n1 where 1: "order g2 = order g1" "code g2 = code g1 @ e1"
    "relocations g2 = relocations g1 @ n1" "chain (length (code g1)) n1 (length (code g2))"
    "defined g1 \<subseteq>\<^sub>m defined g2"
    by (auto simp add: grows_def)
  from assms(2) obtain e2 n2 where 2: "order g3 = order g2" "code g3 = code g2 @ e2"
    "relocations g3 = relocations g2 @ n2" "chain (length (code g2)) n2 (length (code g3))"
    "defined g2 \<subseteq>\<^sub>m defined g3"
    by (auto simp add: grows_def)
  have "chain (length (code g1)) (n1 @ n2) (length (code g3))"
    using 1(4) 2(4) by (rule chain_append)
  moreover have "defined g1 \<subseteq>\<^sub>m defined g3"
    using 1(5) 2(5) by (rule map_le_trans)
  ultimately show ?thesis
    unfolding grows_def using 1 2 by auto
qed

lemma grows_append: "grows g (g\<lparr>code := code g @ bs\<rparr>)"
  by (simp add: grows_def)

lemma grows_reference: "grows g (reference g w l)"
  by (simp add: grows_def reference_def)

lemma grows_define_relocatable: "define_relocatable g l v = Inr g' \<Longrightarrow> grows g g'"
  by (auto simp add: define_relocatable_def grows_def map_le_def split: option.splits)

lemma define_relocatable_binds:
  "define_relocatable g l v = Inr g' \<Longrightarrow> defined g l = None \<and> defined g' l = Some v"
  by (auto simp add: define_relocatable_def split: option.splits)

lemma grows_apply_op: "apply_op g op = Inr g' \<Longrightarrow> grows g g'"
  by (cases op)
    (auto simp add: u8_def u16_def u32_def grows_append grows_reference define_label_def
      dest: grows_define_relocatable)

lemma grows_apply_ops: "apply_ops g ops = Inr g' \<Longrightarrow> grows g g'"
proof (induction ops arbitrary: g)
  case Nil
  then show ?case by (simp add: grows_refl)
next
  case (Cons op ops)
  then obtain g1 where "apply_op g op = Inr g1" and "apply_ops g1 ops = Inr g'"
    by (auto simp add: and_then_eq_Inr)
  then show ?case
    using Cons.IH grows_apply_op grows_trans by blast
qed

lemma grows_defined: "grows g g' \<Longrightarrow> defined g l = Some v \<Longrightarrow> defined g' l = Some v"
  by (auto simp add: grows_def map_le_def dom_def)

lemma grows_undefined: "grows g g' \<Longrightarrow> defined g' l = None \<Longrightarrow> defined g l = None"
  by (cases "defined g l") (auto dest: grows_defined)

lemma grows_length: "grows g g' \<Longrightarrow> length (code g) \<le> length (code g')"
  by (auto simp add: grows_def)

lemma grows_emit_descriptors_from:
  "emit_descriptors_from C selectors index es g = Inr g' \<Longrightarrow> grows g g'"
proof (induction es arbitrary: g index)
  case Nil
  then show ?case by (simp add: grows_refl)
next
  case (Cons a es)
  obtain entity info where a: "a = (entity, info)" by (cases a)
  from Cons.prems obtain g1 ops g2 where
    1: "define_relocatable g (descriptor info) index = Inr g1" and
    2: "apply_ops g1 ops = Inr g2" and
    3: "emit_descriptors_from C selectors (index + 1) es g2 = Inr g'"
    by (auto simp add: a and_then_eq_Inr)
  have "grows g g1" using 1 by (rule grows_define_relocatable)
  moreover have "grows g1 g2" using 2 by (rule grows_apply_ops)
  moreover have "grows g2 g'" using 3 by (rule Cons.IH)
  ultimately show ?case by (blast intro: grows_trans)
qed

lemma grows_emit_functions_of:
  "emit_functions_of C ctx analysis reach selectors ms g = Inr g' \<Longrightarrow> grows g g'"
proof (induction ms arbitrary: g)
  case Nil
  then show ?case by (simp add: grows_refl)
next
  case (Cons a ms)
  obtain m info where a: "a = (m, info)" by (cases a)
  show ?case
  proof (cases "method_body (item_definition m) = None")
    case True
    with Cons.prems have "emit_functions_of C ctx analysis reach selectors ms g = Inr g'"
      by (simp add: a)
    then show ?thesis by (rule Cons.IH)
  next
    case False
    with Cons.prems obtain l g1 ops g2 where
      1: "define_label g l = Inr g1" and
      2: "apply_ops g1 ops = Inr g2" and
      3: "emit_functions_of C ctx analysis reach selectors ms g2 = Inr g'"
      by (auto simp add: a and_then_eq_Inr)
    have "grows g g1" using 1 unfolding define_label_def by (rule grows_define_relocatable)
    moreover have "grows g1 g2" using 2 by (rule grows_apply_ops)
    moreover have "grows g2 g'" using 3 by (rule Cons.IH)
    ultimately show ?thesis by (blast intro: grows_trans)
  qed
qed

lemma grows_emit_functions_over:
  "emit_functions_over C ctx analysis reach selectors es g = Inr g' \<Longrightarrow> grows g g'"
proof (induction es arbitrary: g)
  case Nil
  then show ?case by (simp add: grows_refl)
next
  case (Cons a es)
  obtain entity info where a: "a = (entity, info)" by (cases a)
  from Cons.prems obtain g1 where
    1: "emit_functions_of C ctx analysis reach selectors (methods info) g = Inr g1" and
    2: "emit_functions_over C ctx analysis reach selectors es g1 = Inr g'"
    by (auto simp add: a and_then_eq_Inr)
  have "grows g g1" using 1 by (rule grows_emit_functions_of)
  moreover have "grows g1 g'" using 2 by (rule Cons.IH)
  ultimately show ?case by (rule grows_trans)
qed

lemma resolve_chain:
  "resolve ord tab rs buf = Inr img \<Longrightarrow> chain n rs (length buf) \<Longrightarrow>
   length img = length buf \<and> take n img = take n buf \<and>
   (\<forall>(pos, w, l) \<in> set rs. \<exists>v. tab l = Some v \<and>
      take w (drop pos img) = encode ord w v)"
proof (induction rs arbitrary: buf n)
  case Nil
  then show ?case by simp
next
  case (Cons r rs)
  obtain pos w l where r: "r = (pos, w, l)" by (cases r)
  from Cons.prems(1) obtain v where v: "tab l = Some v"
    and rest: "resolve ord tab rs (write_bytes buf pos (encode ord w v)) = Inr img"
    by (auto simp add: r split: option.splits if_splits)
  let ?buf1 = "write_bytes buf pos (encode ord w v)"
  from Cons.prems(2) have le: "n \<le> pos" and ch: "chain (pos + w) rs (length ?buf1)"
    by (simp_all add: r)
  from Cons.IH [OF rest ch] have
    len: "length img = length ?buf1" and
    tk: "take (pos + w) img = take (pos + w) ?buf1" and
    others: "\<forall>(pos, w, l) \<in> set rs. \<exists>v. tab l = Some v \<and>
      take w (drop pos img) = encode ord w v"
    by auto
  have bound: "pos + w \<le> length buf"
    using chain_le [OF ch] by simp
  have "take n img = take n (take (pos + w) img)"
    using le by (simp add: min_def)
  also have "\<dots> = take n ?buf1"
    using le by (simp add: tk min_def)
  also have "\<dots> = take n buf"
    using le by (rule take_write_bytes)
  finally have tn: "take n img = take n buf" .
  have split: "buf = take pos buf @ take w (drop pos buf) @ drop (pos + w) buf"
    by (metis append_take_drop_id drop_drop add.commute)
  have lens: "length (take pos buf) = pos" "length (take w (drop pos buf)) = length (encode ord w v)"
    using bound by simp_all
  have "?buf1 = write_bytes (take pos buf @ take w (drop pos buf) @ drop (pos + w) buf)
                  (length (take pos buf)) (encode ord w v)"
    using split lens(1) by simp
  also have "\<dots> = take pos buf @ encode ord w v @ drop (pos + w) buf"
    using lens(2) by (rule write_bytes_over)
  finally have buf1: "?buf1 = take pos buf @ encode ord w v @ drop (pos + w) buf" .
  have "take w (drop pos img) = drop pos (take (pos + w) img)"
    by (simp add: drop_take)
  also have "\<dots> = drop pos (take (pos + w) ?buf1)"
    by (simp add: tk)
  also have "\<dots> = encode ord w v"
    using bound by (simp add: buf1)
  finally have here: "take w (drop pos img) = encode ord w v" .
  show ?case
    using len tn here v others by (simp add: r)
qed

lemma le_bytes_1: "le_bytes (Suc 0) v = [word_of_nat (v mod 256)]"
  by simp

lemma le_bytes_2: "le_bytes 2 v = [word_of_nat (v mod 256), word_of_nat (v div 256 mod 256)]"
proof -
  have "le_bytes (Suc (Suc 0)) v = [word_of_nat (v mod 256), word_of_nat (v div 256 mod 256)]"
    by simp
  moreover have "(2::nat) = Suc (Suc 0)" by simp
  ultimately show ?thesis by (simp only:)
qed

lemma le_bytes_4:
  "le_bytes 4 v = [word_of_nat (v mod 256), word_of_nat (v div 256 mod 256),
     word_of_nat (v div 256 div 256 mod 256), word_of_nat (v div 256 div 256 div 256 mod 256)]"
proof -
  have "le_bytes (Suc (Suc (Suc (Suc 0)))) v = [word_of_nat (v mod 256), word_of_nat (v div 256 mod 256),
     word_of_nat (v div 256 div 256 mod 256), word_of_nat (v div 256 div 256 div 256 mod 256)]"
    by simp
  moreover have "(4::nat) = Suc (Suc (Suc (Suc 0)))" by simp
  ultimately show ?thesis by (simp only:)
qed

lemma replicate_4: "replicate 4 x = [x, x, x, x]"
proof -
  have "replicate (Suc (Suc (Suc (Suc 0)))) x = [x, x, x, x]" by simp
  moreover have "(4::nat) = Suc (Suc (Suc (Suc 0)))" by simp
  ultimately show ?thesis by (simp only:)
qed

lemma and_then_assoc:
  "and_then (and_then r f) g = and_then r (\<lambda>x. and_then (f x) g)"
  by (cases r) simp_all

lemma and_then_Inr_right [simp]: "and_then r Inr = r"
  by (cases r) simp_all

lemma has_body_pair:
  "has_body (method, info) \<longleftrightarrow> method_body (item_definition method) \<noteq> None"
  by (simp add: has_body_def)

lemma emit_functions_of_bodies:
  "emit_functions_of C ctx analysis reach selectors ms =
   emit_bodies C ctx analysis reach selectors (filter has_body ms)"
proof (induction ms)
  case Nil
  show ?case by (rule ext) simp
next
  case (Cons a ms)
  obtain m info where a: "a = (m, info)" by (cases a)
  show ?case
  proof (rule ext)
    fix gen
    show "emit_functions_of C ctx analysis reach selectors (a # ms) gen =
          emit_bodies C ctx analysis reach selectors (filter has_body (a # ms)) gen"
      by (cases "method_body (item_definition m)")
        (simp_all add: a has_body_pair Cons.IH)
  qed
qed

lemma emit_bodies_append:
  "emit_bodies C ctx analysis reach selectors (xs @ ys) =
   (\<lambda>gen. and_then (emit_bodies C ctx analysis reach selectors xs gen)
     (emit_bodies C ctx analysis reach selectors ys))"
proof (induction xs)
  case Nil
  show ?case by (rule ext) simp
next
  case (Cons a xs)
  obtain m info where a: "a = (m, info)" by (cases a)
  show ?case
    by (rule ext) (simp add: a Cons.IH and_then_assoc)
qed

lemma emit_functions_over_bodies:
  "emit_functions_over C ctx analysis reach selectors es =
   emit_bodies C ctx analysis reach selectors
     (filter has_body (concat (map (\<lambda>(entity, entity_info). methods entity_info) es)))"
proof (induction es)
  case Nil
  show ?case by (rule ext) simp
next
  case (Cons a es)
  obtain entity info where a: "a = (entity, info)" by (cases a)
  show ?case
    by (rule ext) (simp add: a Cons.IH emit_functions_of_bodies emit_bodies_append)
qed

lemma emit_bodies_binds:
  "emit_bodies C ctx analysis reach selectors ms gen = Inr gen' \<Longrightarrow>
   grows gen gen' \<and> distinct (map (\<lambda>mi. label (snd mi)) ms) \<and>
   (\<forall>mi \<in> set ms. \<exists>l v. label (snd mi) = Some l \<and> defined gen l = None \<and>
      defined gen' l = Some v \<and> length (code gen) \<le> v \<and> v \<le> length (code gen'))"
proof (induction ms arbitrary: gen)
  case Nil
  then show ?case by (simp add: grows_refl)
next
  case (Cons a ms)
  obtain m info where a: "a = (m, info)" by (cases a)
  from Cons.prems obtain l g1 ops g2 where
    l: "label info = Some l" and
    1: "define_label gen l = Inr g1" and
    2: "apply_ops g1 ops = Inr g2" and
    3: "emit_bodies C ctx analysis reach selectors ms g2 = Inr gen'"
    by (auto simp add: a and_then_eq_Inr optional_value_def split: option.splits)
  have g01: "grows gen g1" using 1 unfolding define_label_def by (rule grows_define_relocatable)
  have g12: "grows g1 g2" using 2 by (rule grows_apply_ops)
  from Cons.IH [OF 3] have g2': "grows g2 gen'"
    and dist: "distinct (map (\<lambda>mi. label (snd mi)) ms)"
    and rest: "\<forall>mi \<in> set ms. \<exists>l v. label (snd mi) = Some l \<and> defined g2 l = None \<and>
      defined gen' l = Some v \<and> length (code g2) \<le> v \<and> v \<le> length (code gen')"
    by auto
  have g02: "grows gen g2" using g01 g12 by (rule grows_trans)
  have g0': "grows gen gen'" using g02 g2' by (rule grows_trans)
  from 1 have b: "defined gen l = None" "defined g1 l = Some (length (code gen))"
    unfolding define_label_def by (auto dest: define_relocatable_binds)
  have b2: "defined g2 l = Some (length (code gen))"
    using g12 b(2) by (rule grows_defined)
  have b': "defined gen' l = Some (length (code gen))"
    using g2' b2 by (rule grows_defined)
  have fresh: "Some l \<notin> set (map (\<lambda>mi. label (snd mi)) ms)"
  proof
    assume "Some l \<in> set (map (\<lambda>mi. label (snd mi)) ms)"
    then obtain mi where "mi \<in> set ms" and "label (snd mi) = Some l" by auto
    with rest have "defined g2 l = None" by fastforce
    with b2 show False by simp
  qed
  have head: "\<exists>l v. label (snd a) = Some l \<and> defined gen l = None \<and>
      defined gen' l = Some v \<and> length (code gen) \<le> v \<and> v \<le> length (code gen')"
    using l b(1) b' grows_length [OF g0'] by (simp add: a)
  have tail: "\<forall>mi \<in> set ms. \<exists>l v. label (snd mi) = Some l \<and> defined gen l = None \<and>
      defined gen' l = Some v \<and> length (code gen) \<le> v \<and> v \<le> length (code gen')"
  proof
    fix mi assume "mi \<in> set ms"
    with rest obtain l' v where "label (snd mi) = Some l'" "defined g2 l' = None"
      "defined gen' l' = Some v" "length (code g2) \<le> v" "v \<le> length (code gen')"
      by blast
    moreover have "defined gen l' = None"
      using g02 \<open>defined g2 l' = None\<close> by (rule grows_undefined)
    moreover have "length (code gen) \<le> length (code g2)"
      using g02 by (rule grows_length)
    ultimately show "\<exists>l v. label (snd mi) = Some l \<and> defined gen l = None \<and>
      defined gen' l = Some v \<and> length (code gen) \<le> v \<and> v \<le> length (code gen')"
      by auto
  qed
  show ?case
    using g0' dist fresh head tail by (simp add: a l)
qed

lemma emit_descriptors_from_index:
  "emit_descriptors_from C selectors index es gen = Inr gen' \<Longrightarrow> k < length es \<Longrightarrow>
   defined gen (descriptor (snd (es ! k))) = None \<and>
   defined gen' (descriptor (snd (es ! k))) = Some (index + k)"
proof (induction es arbitrary: gen index k)
  case Nil
  then show ?case by simp
next
  case (Cons a es)
  obtain entity info where a: "a = (entity, info)" by (cases a)
  from Cons.prems(1) obtain g1 ops g2 where
    1: "define_relocatable gen (descriptor info) index = Inr g1" and
    2: "apply_ops g1 ops = Inr g2" and
    3: "emit_descriptors_from C selectors (index + 1) es g2 = Inr gen'"
    by (auto simp add: a and_then_eq_Inr)
  have g01: "grows gen g1" using 1 by (rule grows_define_relocatable)
  have g12: "grows g1 g2" using 2 by (rule grows_apply_ops)
  have g02: "grows gen g2" using g01 g12 by (rule grows_trans)
  have g2': "grows g2 gen'" using 3 by (rule grows_emit_descriptors_from)
  show ?case
  proof (cases k)
    case 0
    from 1 have "defined gen (descriptor info) = None" "defined g1 (descriptor info) = Some index"
      by (auto dest: define_relocatable_binds)
    moreover have "defined gen' (descriptor info) = Some index"
      using g2' grows_defined [OF g12 \<open>defined g1 (descriptor info) = Some index\<close>]
      by (rule grows_defined)
    ultimately show ?thesis by (simp add: 0 a)
  next
    case (Suc j)
    with Cons.prems(2) have j: "j < length es" by simp
    from Cons.IH [OF 3 j] have "defined g2 (descriptor (snd (es ! j))) = None"
      and "defined gen' (descriptor (snd (es ! j))) = Some (index + 1 + j)"
      by auto
    moreover have "defined gen (descriptor (snd (es ! j))) = None"
      using g02 \<open>defined g2 (descriptor (snd (es ! j))) = None\<close> by (rule grows_undefined)
    ultimately show ?thesis by (simp add: Suc)
  qed
qed

lemma optional_value_Inr [simp]: "optional_value x = Inr v \<longleftrightarrow> x = Some v"
  by (cases x) (simp_all add: optional_value_def)

lemma emit_program_header_Inr:
  "emit_program_header C reach gen main_class main_method = Inr gen' \<longleftrightarrow>
   (\<exists>class_info method_info l n.
      at (entities reach) main_class = Inr class_info \<and>
      at (methods class_info) main_method = Inr method_info \<and>
      label method_info = Some l \<and>
      truncate_uint16 C (length (entities reach)) = Inr n \<and>
      gen' = u16 (u32_label gen l) n)"
  by (simp add: emit_program_header_def and_then_eq_Inr) blast

lemma code_header:
  "code (u16 (u32_label gen l) n) =
     code gen @ replicate 4 0 @ encode (order gen) 2 (unat n)"
  by (simp add: u16_def u32_label_def reference_def)

lemma relocations_header:
  "relocations (u16 (u32_label gen l) n) = relocations gen @ [(length (code gen), 4, l)]"
  by (simp add: u16_def u32_label_def reference_def)

lemma order_header: "order (u16 (u32_label gen l) n) = order gen"
  by (simp add: u16_def u32_label_def reference_def)

lemma finish_Inr:
  "finish gen = Inr gen' \<longleftrightarrow>
   (\<exists>buf. resolve (order gen) (defined gen) (relocations gen) (code gen) = Inr buf \<and>
      gen' = gen\<lparr>code := buf\<rparr>)"
  by (auto simp add: finish_def and_then_eq_Inr)

lemma emit_all_Inr:
  assumes "emit_all C ctx analysis entry = Inr gen"
  shows "\<exists>reach gen1.
      compute_reachability C ctx (Generator (byte_order C)) (fst entry) (snd entry) analysis = Inr reach \<and>
      emit_program_header C reach (Generator (byte_order C)) (fst entry) (snd entry) = Inr gen1 \<and>
      grows gen1 gen"
proof -
  from assms obtain reach gen1 gen2 where
    r: "compute_reachability C ctx (Generator (byte_order C)) (fst entry) (snd entry) analysis = Inr reach" and
    h: "emit_program_header C reach (Generator (byte_order C)) (fst entry) (snd entry) = Inr gen1" and
    d: "emit_descriptors C reach (SelectorTable_build C reach) gen1 = Inr gen2" and
    f: "emit_functions C ctx analysis reach (SelectorTable_build C reach) gen2 = Inr gen"
    by (auto simp add: emit_all_def and_then_eq_Inr)
  have "grows gen1 gen2"
    using d unfolding emit_descriptors_def by (rule grows_emit_descriptors_from)
  moreover have "grows gen2 gen"
    using f unfolding emit_functions_def by (rule grows_emit_functions_over)
  ultimately have "grows gen1 gen" by (rule grows_trans)
  with r h show ?thesis by blast
qed

lemma header_on_empty:
  assumes "emit_program_header C reach (Generator ord) main_class main_method = Inr gen1"
  shows "\<exists>class_info method_info l n.
      at (entities reach) main_class = Inr class_info \<and>
      at (methods class_info) main_method = Inr method_info \<and>
      label method_info = Some l \<and>
      truncate_uint16 C (length (entities reach)) = Inr n \<and>
      order gen1 = ord \<and>
      code gen1 = replicate 4 0 @ encode ord 2 (unat n) \<and>
      relocations gen1 = [(0, 4, l)] \<and> length (code gen1) = 6"
proof -
  from assms obtain class_info method_info l n where
    "at (entities reach) main_class = Inr class_info"
    "at (methods class_info) main_method = Inr method_info"
    "label method_info = Some l"
    "truncate_uint16 C (length (entities reach)) = Inr n"
    "gen1 = u16 (u32_label (Generator ord) l) n"
    unfolding emit_program_header_Inr by blast
  moreover have "code (u16 (u32_label (Generator ord) l) n) = replicate 4 0 @ encode ord 2 (unat n)"
    by (simp add: code_header Generator_def)
  moreover have "relocations (u16 (u32_label (Generator ord) l) n) = [(0, 4, l)]"
    by (simp add: relocations_header Generator_def)
  moreover have "order (u16 (u32_label (Generator ord) l) n) = ord"
    by (simp add: order_header Generator_def)
  ultimately show ?thesis by simp
qed


lemma codegen_success:
  assumes "find_entry ctx p cerr = (Some entry, cerr')"
  shows "fst (codegen C ctx p analysis cerr) = Inr img \<longleftrightarrow>
         (\<exists>gen gen'. emit_all C ctx analysis entry = Inr gen \<and> finish gen = Inr gen' \<and>
            img = code gen')"
  using assms by (auto simp add: codegen_def and_then_eq_Inr)

lemma codegen_failure:
  assumes "fst (find_entry ctx p cerr) = None"
  shows "codegen C ctx p analysis cerr = (Inr [], snd (find_entry ctx p cerr))"
  using assms by (cases "find_entry ctx p cerr") (simp add: codegen_def)

lemma emit_all_shape:
  assumes "emit_all C ctx analysis entry = Inr gen"
  shows "\<exists>reach class_info method_info l n gen1 ext new.
      compute_reachability C ctx (Generator (byte_order C)) (fst entry) (snd entry) analysis = Inr reach \<and>
      emit_program_header C reach (Generator (byte_order C)) (fst entry) (snd entry) = Inr gen1 \<and>
      at (entities reach) (fst entry) = Inr class_info \<and>
      at (methods class_info) (snd entry) = Inr method_info \<and>
      label method_info = Some l \<and>
      truncate_uint16 C (length (entities reach)) = Inr n \<and>
      length (code gen1) = 6 \<and> take 6 (code gen) = code gen1 \<and>
      order gen = byte_order C \<and>
      code gen = replicate 4 0 @ encode (byte_order C) 2 (unat n) @ ext \<and>
      relocations gen = (0, 4, l) # new \<and> chain 6 new (6 + length ext)"
proof -
  from emit_all_Inr [OF assms] obtain reach gen1 where
    r: "compute_reachability C ctx (Generator (byte_order C)) (fst entry) (snd entry) analysis = Inr reach" and
    h: "emit_program_header C reach (Generator (byte_order C)) (fst entry) (snd entry) = Inr gen1" and
    g: "grows gen1 gen"
    by blast
  from header_on_empty [OF h] obtain class_info method_info l n where
    hd: "at (entities reach) (fst entry) = Inr class_info"
      "at (methods class_info) (snd entry) = Inr method_info"
      "label method_info = Some l"
      "truncate_uint16 C (length (entities reach)) = Inr n"
      "order gen1 = byte_order C"
      "code gen1 = replicate 4 0 @ encode (byte_order C) 2 (unat n)"
      "relocations gen1 = [(0, 4, l)]" "length (code gen1) = 6"
    by blast
  from g obtain ext new where
    e: "order gen = order gen1" "code gen = code gen1 @ ext"
      "relocations gen = relocations gen1 @ new"
      "chain (length (code gen1)) new (length (code gen))"
    by (auto simp add: grows_def)
  have "take 6 (code gen) = code gen1"
    using e(2) hd(8) by simp
  moreover have "chain 6 new (6 + length ext)"
    using e(4) e(2) hd(8) by simp
  moreover have "code gen = replicate 4 0 @ encode (byte_order C) 2 (unat n) @ ext"
    using e(2) hd(6) by simp
  moreover have "relocations gen = (0, 4, l) # new"
    using e(3) hd(7) by simp
  moreover have "order gen = byte_order C"
    using e(1) hd(5) by simp
  ultimately show ?thesis
    using r h hd(1-4) hd(8) by blast
qed

subsection \<open>The example run\<close>

lemma optional_value_simps:
  "optional_value (Some v) = Inr v"
  "optional_value None = Inl BadOptionalAccess"
  by (simp_all add: optional_value_def)

lemma Suc_7: "Suc (Suc (Suc (Suc (Suc (Suc (Suc 0)))))) = 7"
  by simp

lemma C0_simps:
  "byte_order C0 = LittleEndian"
  "compute_reachability C0 ctx gen e m a = Inr reach0"
  "SelectorTable_build C0 r = []"
  "emit_descriptor C0 s gen e i = Inr [OpU8 1]"
  "emit_function C0 ctx r s gen m fa = Inr [OpU8 7]"
  "truncate_uint16 C0 = truncate_checked"
  by (simp_all add: C0_def)

lemma entry0_simps:
  "item_definition (fst entry0) = Main_class [main_ok]"
  "item_definition (snd entry0) = main_ok"
  "method_body main_ok = Some 0"
  "method_body abstract_method = None"
  "item_definition (CodegenItem d i) = d"
  by (simp_all add: entry0_def CodegenItem_def main_ok_def abstract_method_def)

lemma find_entry0: "find_entry ctx0 p0 [] = (Some entry0, [])"
  by (simp add: find_entry_def find_entity_def p0_def Main_class_def lookup_member_Method_def
      main_ok_def is_valid_main_signature_def ctx0_def entry0_def)

lemma header0:
  "emit_program_header C0 reach0 (Generator LittleEndian) (fst entry0) (snd entry0) =
     Inr \<lparr>order = LittleEndian, code = [0, 0, 0, 0, 1, 0], defined = Map.empty,
          relocations = [(0, 4, 5)]\<rparr>"
  by (simp add: emit_program_header_def reach0_def at_def C0_simps optional_value_simps
      truncate_checked_def u16_def u32_label_def reference_def Generator_def encode_def
      le_bytes_2 replicate_4)

lemma descriptors0:
  "emit_descriptors C0 reach0 []
     \<lparr>order = LittleEndian, code = [0, 0, 0, 0, 1, 0], defined = Map.empty,
      relocations = [(0, 4, 5)]\<rparr> =
   Inr \<lparr>order = LittleEndian, code = [0, 0, 0, 0, 1, 0, 1], defined = [3 \<mapsto> 0],
        relocations = [(0, 4, 5)]\<rparr>"
  by (simp add: emit_descriptors_def reach0_def C0_simps define_relocatable_def u8_def
      encode_def)

lemma functions0:
  "emit_functions C0 ctx0 a0 reach0 []
     \<lparr>order = LittleEndian, code = [0, 0, 0, 0, 1, 0, 1], defined = [3 \<mapsto> 0],
      relocations = [(0, 4, 5)]\<rparr> =
   Inr \<lparr>order = LittleEndian, code = [0, 0, 0, 0, 1, 0, 1, 7], defined = [3 \<mapsto> 0, 5 \<mapsto> 7],
        relocations = [(0, 4, 5)]\<rparr>"
  by (simp add: emit_functions_def reach0_def C0_simps entry0_simps optional_value_simps define_relocatable_def
      define_label_def u8_def encode_def at_def a0_def Suc_7)

lemma emit_all0:
  "emit_all C0 ctx0 a0 entry0 =
     Inr \<lparr>order = LittleEndian, code = [0, 0, 0, 0, 1, 0, 1, 7],
          defined = [3 \<mapsto> 0, 5 \<mapsto> 7], relocations = [(0, 4, 5)]\<rparr>"
  by (simp add: emit_all_def C0_simps header0 descriptors0 functions0)

lemma finish0:
  "finish \<lparr>order = LittleEndian, code = [0, 0, 0, 0, 1, 0, 1, 7],
          defined = [3 \<mapsto> 0, 5 \<mapsto> 7], relocations = [(0, 4, 5)]\<rparr> =
     Inr \<lparr>order = LittleEndian, code = [7, 0, 0, 0, 1, 0, 1, 7],
          defined = [3 \<mapsto> 0, 5 \<mapsto> 7], relocations = [(0, 4, 5)]\<rparr>"
  by (simp add: finish_def encode_def le_bytes_4)

lemma codegen0: "codegen C0 ctx0 p0 a0 [] = (Inr [7, 0, 0, 0, 1, 0, 1, 7], [])"
  by (simp add: codegen_def find_entry0 emit_all0 finish0)

lemma functions1:
  "emit_functions C0 ctx0 a0 reach1 [] (Generator LittleEndian) =
   Inr \<lparr>order = LittleEndian, code = [7], defined = [5 \<mapsto> 0], relocations = []\<rparr>"
  by (simp add: emit_functions_def reach1_def C0_simps entry0_simps optional_value_simps
      define_relocatable_def define_label_def u8_def encode_def at_def a0_def Generator_def)

lemma bodies1:
  "filter has_body (reachable_methods reach1) = [(snd entry0, \<lparr>label = Some 5\<rparr>)]"
  by (simp add: reachable_methods_def reach1_def has_body_def entry0_simps)

lemma descriptors2:
  "emit_descriptors C0 reach2 [] (Generator LittleEndian) =
   Inr \<lparr>order = LittleEndian, code = [1, 1], defined = [10 \<mapsto> 0, 11 \<mapsto> 1],
        relocations = []\<rparr>"
  by (simp add: emit_descriptors_def reach2_def C0_simps define_relocatable_def u8_def
      encode_def Generator_def)

lemma find_entity_examples:
  "find_entity p0 ''Main'' = Some (Main_class [main_ok])"
  "find_entity p_interface ''Main'' = Some (Main_interface [main_ok])"
  "find_entity p_generic ''Main'' = Some (Main_generic [main_ok])"
  "find_entity p_generic_argument ''Main'' = Some (Main_generic [main_with_argument])"
  "find_entity p_argument ''Main'' = Some (Main_class [main_with_argument])"
  "find_entity p_no_main ''Main'' = Some (Main_class [abstract_method])"
  by (simp_all add: find_entity_def p0_def p_interface_def p_generic_def p_generic_argument_def
      p_argument_def p_no_main_def Main_class_def Main_interface_def Main_generic_def)

lemma entity_examples:
  "entity_kind (Main_class ms) = Class" "entity_generics (Main_class ms) = []"
  "entity_kind (Main_generic ms) = Class" "entity_generics (Main_generic ms) = [''T'']"
  "entity_kind (Main_interface ms) = Interface"
  "entity_name (Main_class ms) = \<lparr>name_text = ''Main'', name_source_range = (6, 10)\<rparr>"
  "entity_name (Main_generic ms) = \<lparr>name_text = ''Main'', name_source_range = (6, 10)\<rparr>"
  "entity_name (Main_interface ms) = \<lparr>name_text = ''Main'', name_source_range = (10, 14)\<rparr>"
  "lookup_member_Method (Main_class [main_ok]) ''main'' = Some main_ok"
  "lookup_member_Method (Main_class [main_with_argument]) ''main'' = Some main_with_argument"
  "lookup_member_Method (Main_generic [main_with_argument]) ''main'' = Some main_with_argument"
  "lookup_member_Method (Main_class [abstract_method]) ''main'' = None"
  by (simp_all add: Main_class_def Main_generic_def Main_interface_def lookup_member_Method_def
      main_ok_def main_with_argument_def abstract_method_def)

lemma signature_examples:
  "is_valid_main_signature ctx0 (method_signature main_ok)"
  "\<not> is_valid_main_signature ctx0 (method_signature main_with_argument)"
  "sig_arguments (method_signature main_with_argument) = [1]"
  "method_name main_with_argument = \<lparr>name_text = ''main'', name_source_range = (20, 24)\<rparr>"
  by (simp_all add: is_valid_main_signature_def ctx0_def main_ok_def main_with_argument_def)

subsection \<open>The run with many entities\<close>














section \<open>The result of the pipeline and entry-point resolution\<close>

text \<open>
  Claim C1. \<^verbatim>\<open>codegen\<close> returns the empty byte sequence if and only if entry-point
  resolution failed. When resolution succeeded and \<^verbatim>\<open>codegen\<close> returns, what it returns
  is the buffer of the generator after \<^verbatim>\<open>finish\<close>: it is as long as the buffer that
  the emitters built (at least the six bytes of the header), and every recorded
  relocation holds the encoded value of its label.
\<close>

theorem codegen_returns:
  "(fst (codegen C ctx p analysis cerr) = Inr [] \<longleftrightarrow> fst (find_entry ctx p cerr) = None) \<and>
   (\<forall>entry img. fst (find_entry ctx p cerr) = Some entry \<and>
        fst (codegen C ctx p analysis cerr) = Inr img \<longrightarrow>
      (\<exists>gen gen'. emit_all C ctx analysis entry = Inr gen \<and> finish gen = Inr gen' \<and>
         img = code gen' \<and> length img = length (code gen) \<and> 6 \<le> length img \<and>
         (\<forall>(pos, w, l) \<in> set (relocations gen). \<exists>v. defined gen l = Some v \<and>
            take w (drop pos img) = encode (order gen) w v)))"
proof -
  have success: "\<exists>gen gen'. emit_all C ctx analysis entry = Inr gen \<and> finish gen = Inr gen' \<and>
         img = code gen' \<and> length img = length (code gen) \<and> 6 \<le> length img \<and>
         (\<forall>(pos, w, l) \<in> set (relocations gen). \<exists>v. defined gen l = Some v \<and>
            take w (drop pos img) = encode (order gen) w v)"
    if found: "fst (find_entry ctx p cerr) = Some entry"
      and ret: "fst (codegen C ctx p analysis cerr) = Inr img" for entry img
  proof -
    from found have fe: "find_entry ctx p cerr = (Some entry, snd (find_entry ctx p cerr))"
      by (cases "find_entry ctx p cerr") simp
    from ret obtain gen gen' where
      ea: "emit_all C ctx analysis entry = Inr gen" and fin: "finish gen = Inr gen'"
      and img: "img = code gen'"
      unfolding codegen_success [OF fe] by blast
    from fin have res: "resolve (order gen) (defined gen) (relocations gen) (code gen) = Inr img"
      unfolding finish_Inr using img by auto
    from emit_all_shape [OF ea] obtain n l ext new where
      c: "code gen = replicate 4 0 @ encode (byte_order C) 2 (unat (n :: 16 word)) @ ext" and
      rl: "relocations gen = (0, 4, l) # new" and ch: "chain 6 new (6 + length ext)"
      by blast
    have len: "length (code gen) = 6 + length ext"
      by (simp add: c)
    have "chain 4 new (length (code gen))"
      using ch len by (simp add: chain_mono)
    then have "chain 0 (relocations gen) (length (code gen))"
      by (simp add: rl)
    from resolve_chain [OF res this] have
      "length img = length (code gen)" and
      "\<forall>(pos, w, l) \<in> set (relocations gen). \<exists>v. defined gen l = Some v \<and>
          take w (drop pos img) = encode (order gen) w v"
      by auto
    with ea fin img len show ?thesis by auto
  qed
  have "fst (codegen C ctx p analysis cerr) = Inr [] \<longleftrightarrow> fst (find_entry ctx p cerr) = None"
  proof
    assume empty: "fst (codegen C ctx p analysis cerr) = Inr []"
    show "fst (find_entry ctx p cerr) = None"
    proof (cases "fst (find_entry ctx p cerr)")
      case None
      then show ?thesis .
    next
      case (Some entry)
      from success [OF Some empty] have "6 \<le> length ([] :: byte list)" by blast
      then show ?thesis by simp
    qed
  next
    assume "fst (find_entry ctx p cerr) = None"
    then show "fst (codegen C ctx p analysis cerr) = Inr []"
      by (simp add: codegen_failure)
  qed
  with success show ?thesis by blast
qed

text \<open>
  The example program yields eight bytes, the patched header first; the program with
  no entity yields none.
\<close>

theorem codegen_returns_witness:
  "fst (find_entry ctx0 p0 []) = Some entry0 \<and>
   fst (codegen C0 ctx0 p0 a0 []) = Inr [7, 0, 0, 0, 1, 0, 1, 7] \<and>
   (\<exists>gen gen'. emit_all C0 ctx0 a0 entry0 = Inr gen \<and> finish gen = Inr gen' \<and>
      [7, 0, 0, 0, 1, 0, 1, 7] = code gen' \<and> length (code gen') = length (code gen)) \<and>
   fst (find_entry ctx0 p_empty []) = None \<and>
   fst (codegen C0 ctx0 p_empty a0 []) = Inr []"
proof -
  have 1: "fst (find_entry ctx0 p0 []) = Some entry0"
    by (simp add: find_entry0)
  have 2: "fst (codegen C0 ctx0 p0 a0 []) = Inr [7, 0, 0, 0, 1, 0, 1, 7]"
    by (simp add: codegen0)
  from codegen_returns [of C0 ctx0 p0 a0 "[]"] 1 2
  have 3: "\<exists>gen gen'. emit_all C0 ctx0 a0 entry0 = Inr gen \<and> finish gen = Inr gen' \<and>
      [7, 0, 0, 0, 1, 0, 1, 7] = code gen' \<and> length (code gen') = length (code gen)"
    by (metis (no_types, lifting))
  have 4: "fst (find_entry ctx0 p_empty []) = None"
    by (simp add: find_entry_def find_entity_def p_empty_def)
  from codegen_returns [of C0 ctx0 p_empty a0 "[]"] 4
  have 5: "fst (codegen C0 ctx0 p_empty a0 []) = Inr []"
    by blast
  from 1 2 3 4 5 show ?thesis by (intro conjI)
qed

text \<open>
  Claim C2. For every program with no entity named \<^verbatim>\<open>Main\<close>, \<^verbatim>\<open>codegen\<close> returns the
  empty result and writes exactly one entry to the error stream, the global
  diagnostic \<^verbatim>\<open>NoMainClass\<close>.
\<close>

theorem codegen_no_main_class:
  assumes "\<forall>e \<in> set (program_entities p). name_text (entity_name e) \<noteq> ''Main''"
  shows "codegen C ctx p analysis cerr = (Inr [], cerr @ [GlobalDiagnostic Error NoMainClass])"
proof -
  from assms have "find_entity p ''Main'' = None"
    by (simp only: find_entity_None)
  then show ?thesis
    by (simp add: codegen_def find_entry_def print_defs)
qed

theorem codegen_no_main_class_witness:
  "codegen C0 ctx0 p_empty a0 [] = (Inr [], [GlobalDiagnostic Error NoMainClass])"
  using codegen_no_main_class [of p_empty C0 ctx0 a0 "[]"] by (simp add: p_empty_def)

text \<open>
  Claim C3, as amended. Let the entity \<^verbatim>\<open>Main\<close> be a class without generic parameters.
  If it has no method named \<^verbatim>\<open>main\<close>, entry resolution rejects the program with the
  diagnostic \<^verbatim>\<open>NoMainMethod\<close> at the class's name. If it has one, entry resolution
  rejects the program with the diagnostic \<^verbatim>\<open>InvalidMainSignature\<close> at the method's name
  exactly when the signature is not valid, a valid signature being one with no generic
  parameters, no receiver, no arguments and the unit type as return type.
\<close>

theorem find_entry_main_method:
  assumes "find_entity p ''Main'' = Some e" and "entity_kind e = Class"
    and "entity_generics e = []"
  shows "(lookup_member_Method e ''main'' = None \<longrightarrow>
            find_entry ctx p cerr =
              (None, cerr @ [Diagnostic (fst (name_source_range (entity_name e))) Error NoMainMethod,
                             LineDiagnostic (name_source_range (entity_name e))])) \<and>
         (\<forall>m. lookup_member_Method e ''main'' = Some m \<longrightarrow>
            (find_entry ctx p cerr =
               (None, cerr @ [Diagnostic (fst (name_source_range (method_name m))) Error
                                InvalidMainSignature,
                              LineDiagnostic (name_source_range (method_name m))])
             \<longleftrightarrow> \<not> (sig_generics (method_signature m) = [] \<and>
                     sig_receiver (method_signature m) = None \<and>
                     sig_arguments (method_signature m) = [] \<and>
                     sig_return_type (method_signature m) = mk_unit ctx)))"
  using assms
  by (auto simp add: find_entry_def print_defs is_valid_main_signature_def CodegenItem_def)

text \<open>
  \<^verbatim>\<open>class Main { main(x) }\<close> is rejected for its signature, and a class \<^verbatim>\<open>Main\<close> whose
  only method is \<^verbatim>\<open>run\<close> for the missing method.
\<close>

theorem find_entry_main_method_witness:
  "find_entry ctx0 p_argument [] =
     (None, [Diagnostic 20 Error InvalidMainSignature, LineDiagnostic (20, 24)]) \<and>
   find_entry ctx0 p_no_main [] =
     (None, [Diagnostic 6 Error NoMainMethod, LineDiagnostic (6, 10)])"
proof -
  have "find_entry ctx0 p_argument [] =
     (None, [Diagnostic 20 Error InvalidMainSignature, LineDiagnostic (20, 24)])"
    using find_entry_main_method [of p_argument "Main_class [main_with_argument]" ctx0 "[]"]
    by (simp add: find_entity_examples entity_examples signature_examples)
  moreover have "find_entry ctx0 p_no_main [] =
     (None, [Diagnostic 6 Error NoMainMethod, LineDiagnostic (6, 10)])"
    using find_entry_main_method [of p_no_main "Main_class [abstract_method]" ctx0 "[]"]
    by (simp add: find_entity_examples entity_examples)
  ultimately show ?thesis by (intro conjI)
qed

text \<open>
  Claim C3 as it is written fails: in \<^verbatim>\<open>class Main[T] { main(x) }\<close> the entity \<^verbatim>\<open>Main\<close>
  has a method \<^verbatim>\<open>main\<close> whose signature is not valid, and entry resolution rejects the
  program with \<^verbatim>\<open>MainClassIsGeneric\<close>, not with \<^verbatim>\<open>InvalidMainSignature\<close>: the check of
  the class's generic parameters comes first.
\<close>

theorem find_entry_generic_main_counterexample:
  "find_entity p_generic_argument ''Main'' = Some (Main_generic [main_with_argument]) \<and>
   lookup_member_Method (Main_generic [main_with_argument]) ''main'' = Some main_with_argument \<and>
   sig_arguments (method_signature main_with_argument) \<noteq> [] \<and>
   find_entry ctx0 p_generic_argument [] =
     (None, [Diagnostic 6 Error MainClassIsGeneric, LineDiagnostic (6, 10)]) \<and>
   find_entry ctx0 p_generic_argument [] \<noteq>
     (None, [Diagnostic 20 Error InvalidMainSignature, LineDiagnostic (20, 24)])"
  by (simp add: find_entry_def find_entity_examples entity_examples signature_examples print_defs)

text \<open>
  Claim C4. For every program in which the entity named \<^verbatim>\<open>Main\<close> exists and is not a
  class, \<^verbatim>\<open>codegen\<close> returns the empty result and reports \<^verbatim>\<open>MainNotAClass\<close> at the start
  of the name in \<^verbatim>\<open>Main\<close>'s declaration, followed by the source line of that name.
\<close>

theorem codegen_main_not_a_class:
  assumes "find_entity p ''Main'' = Some e" and "entity_kind e \<noteq> Class"
  shows "codegen C ctx p analysis cerr =
           (Inr [], cerr @ [Diagnostic (fst (name_source_range (entity_name e))) Error MainNotAClass,
                            LineDiagnostic (name_source_range (entity_name e))])"
  using assms by (simp add: codegen_def find_entry_def print_defs)

theorem codegen_main_not_a_class_witness:
  "codegen C0 ctx0 p_interface a0 [] =
     (Inr [], [Diagnostic 10 Error MainNotAClass, LineDiagnostic (10, 14)])"
  using codegen_main_not_a_class [of p_interface "Main_interface [main_ok]" C0 ctx0 a0 "[]"]
  by (simp add: find_entity_examples entity_examples)

text \<open>
  Claim C5. For every program whose class \<^verbatim>\<open>Main\<close> declares one or more generic
  parameters, \<^verbatim>\<open>codegen\<close> reports \<^verbatim>\<open>MainClassIsGeneric\<close> and returns the empty result,
  whatever the methods of the class are.
\<close>

theorem codegen_main_class_is_generic:
  assumes "find_entity p ''Main'' = Some e" and "entity_kind e = Class"
    and "entity_generics e \<noteq> []"
  shows "codegen C ctx p analysis cerr =
           (Inr [], cerr @ [Diagnostic (fst (name_source_range (entity_name e))) Error
                              MainClassIsGeneric,
                            LineDiagnostic (name_source_range (entity_name e))])"
  using assms by (simp add: codegen_def find_entry_def print_defs)

theorem codegen_main_class_is_generic_witness:
  "codegen C0 ctx0 p_generic a0 [] =
     (Inr [], [Diagnostic 6 Error MainClassIsGeneric, LineDiagnostic (6, 10)])"
  using codegen_main_class_is_generic [of p_generic "Main_generic [main_ok]" C0 ctx0 a0 "[]"]
  by (simp add: find_entity_examples entity_examples)

text \<open>
  Claim C6. For every program that passes all entry-point checks, \<^verbatim>\<open>find_entry\<close>
  returns the pair of the entity \<^verbatim>\<open>Main\<close> and its method \<^verbatim>\<open>main\<close>, each with the empty
  instantiation, and prints nothing.
\<close>

theorem find_entry_success:
  assumes "find_entity p ''Main'' = Some e" and "entity_kind e = Class"
    and "entity_generics e = []"
    and "lookup_member_Method e ''main'' = Some m"
    and "is_valid_main_signature ctx (method_signature m)"
  shows "find_entry ctx p cerr =
           (Some (\<lparr>item_definition = e, item_instantiation = Instantiation_empty\<rparr>,
                  \<lparr>item_definition = m, item_instantiation = Instantiation_empty\<rparr>), cerr)"
  using assms by (simp add: find_entry_def CodegenItem_def)

theorem find_entry_success_witness:
  "find_entry ctx0 p0 [] =
     (Some (\<lparr>item_definition = Main_class [main_ok], item_instantiation = Instantiation_empty\<rparr>,
            \<lparr>item_definition = main_ok, item_instantiation = Instantiation_empty\<rparr>), [])"
  using find_entry_success [of p0 "Main_class [main_ok]" main_ok ctx0 "[]"]
  by (simp add: find_entity_examples entity_examples signature_examples)

section \<open>Header, descriptors and function bodies\<close>




text \<open>
  Claim C8. Function emission skips a reachable method without a body: the loop leaves
  the generator as it is, so no label is bound and no byte is emitted for it. The whole
  pass is the pass over the methods with a body, each taken once, in the order of the
  graph, with its label bound just before its body is emitted. When the pass returns,
  the labels of these methods are pairwise distinct, each was unbound before the pass
  and is bound after it, to an offset inside the bytes that the pass appended.
\<close>

theorem emit_functions_bodies:
  "emit_functions C ctx analysis reach selectors gen =
     emit_bodies C ctx analysis reach selectors (filter has_body (reachable_methods reach)) gen \<and>
   (\<forall>method info rest. method_body (item_definition method) = None \<longrightarrow>
      emit_functions_of C ctx analysis reach selectors ((method, info) # rest) gen =
      emit_functions_of C ctx analysis reach selectors rest gen) \<and>
   (\<forall>gen'. emit_functions C ctx analysis reach selectors gen = Inr gen' \<longrightarrow>
      distinct (map (\<lambda>mi. label (snd mi)) (filter has_body (reachable_methods reach))) \<and>
      (\<forall>mi \<in> set (filter has_body (reachable_methods reach)).
         \<exists>l v. label (snd mi) = Some l \<and> defined gen l = None \<and> defined gen' l = Some v \<and>
           length (code gen) \<le> v \<and> v \<le> length (code gen')))"
proof -
  have eq: "emit_functions C ctx analysis reach selectors gen =
     emit_bodies C ctx analysis reach selectors (filter has_body (reachable_methods reach)) gen"
    by (simp add: emit_functions_def reachable_methods_def emit_functions_over_bodies)
  have skip: "\<forall>method info rest. method_body (item_definition method) = None \<longrightarrow>
      emit_functions_of C ctx analysis reach selectors ((method, info) # rest) gen =
      emit_functions_of C ctx analysis reach selectors rest gen"
    by simp
  have bound: "\<forall>gen'. emit_functions C ctx analysis reach selectors gen = Inr gen' \<longrightarrow>
      distinct (map (\<lambda>mi. label (snd mi)) (filter has_body (reachable_methods reach))) \<and>
      (\<forall>mi \<in> set (filter has_body (reachable_methods reach)).
         \<exists>l v. label (snd mi) = Some l \<and> defined gen l = None \<and> defined gen' l = Some v \<and>
           length (code gen) \<le> v \<and> v \<le> length (code gen'))"
    unfolding eq using emit_bodies_binds by blast
  from eq skip bound show ?thesis by (intro conjI)
qed

text \<open>
  In \<open>reach1\<close> the method \<^verbatim>\<open>run\<close> has no body and comes before \<^verbatim>\<open>main\<close>: only
  \<^verbatim>\<open>main\<close>'s label 5 is bound, at offset 0, and only its body is emitted.
\<close>

theorem emit_functions_bodies_witness:
  "emit_functions C0 ctx0 a0 reach1 [] (Generator LittleEndian) =
     Inr \<lparr>order = LittleEndian, code = [7], defined = [5 \<mapsto> 0], relocations = []\<rparr> \<and>
   emit_functions C0 ctx0 a0 reach1 [] (Generator LittleEndian) =
     emit_bodies C0 ctx0 a0 reach1 [] [(snd entry0, \<lparr>label = Some 5\<rparr>)] (Generator LittleEndian) \<and>
   method_body (item_definition (CodegenItem abstract_method Instantiation_empty)) = None \<and>
   emit_functions_of C0 ctx0 a0 reach1 []
     [(CodegenItem abstract_method Instantiation_empty, \<lparr>label = None\<rparr>),
      (snd entry0, \<lparr>label = Some 5\<rparr>)] (Generator LittleEndian) =
   emit_functions_of C0 ctx0 a0 reach1 [] [(snd entry0, \<lparr>label = Some 5\<rparr>)]
     (Generator LittleEndian) \<and>
   distinct [Some (5::nat)] \<and>
   defined (Generator LittleEndian) 5 = None"
proof -
  note t = emit_functions_bodies [of C0 ctx0 a0 reach1 "[]" "Generator LittleEndian"]
  from t have "emit_functions C0 ctx0 a0 reach1 [] (Generator LittleEndian) =
     emit_bodies C0 ctx0 a0 reach1 [] (filter has_body (reachable_methods reach1))
       (Generator LittleEndian)"
    by (rule conjunct1)
  then have same: "emit_functions C0 ctx0 a0 reach1 [] (Generator LittleEndian) =
     emit_bodies C0 ctx0 a0 reach1 [] [(snd entry0, \<lparr>label = Some 5\<rparr>)] (Generator LittleEndian)"
    by (simp only: bodies1)
  have none: "method_body (item_definition (CodegenItem abstract_method Instantiation_empty)) = None"
    by (simp add: entry0_simps)
  from t none have skip: "emit_functions_of C0 ctx0 a0 reach1 []
     [(CodegenItem abstract_method Instantiation_empty, \<lparr>label = None\<rparr>),
      (snd entry0, \<lparr>label = Some 5\<rparr>)] (Generator LittleEndian) =
   emit_functions_of C0 ctx0 a0 reach1 [] [(snd entry0, \<lparr>label = Some 5\<rparr>)]
     (Generator LittleEndian)"
    by blast
  from t functions1
  have "distinct (map (\<lambda>mi. label (snd mi)) (filter has_body (reachable_methods reach1)))"
    by blast
  then have dist: "distinct [Some (5::nat)]"
    by (simp add: bodies1)
  have unbound: "defined (Generator LittleEndian) 5 = None"
    by (simp add: Generator_def)
  from functions1 same none skip dist unbound show ?thesis
    by (intro conjI)
qed

text \<open>
  Claim C9. Descriptor emission registers the descriptor of the \<open>k\<close>-th entity of the
  reachability graph, counted from 0 in iteration order, at index \<open>k\<close>: when the pass
  returns, that descriptor was unbound before and is bound to \<open>k\<close> after.
\<close>

theorem emit_descriptors_index:
  assumes "emit_descriptors C reach selectors gen = Inr gen'"
    and "k < length (entities reach)"
  shows "defined gen (descriptor (snd (entities reach ! k))) = None \<and>
         defined gen' (descriptor (snd (entities reach ! k))) = Some k"
  using emit_descriptors_from_index [of C selectors 0 "entities reach" gen gen' k] assms
  by (simp add: emit_descriptors_def)

text \<open>In \<open>reach2\<close> the second entity has descriptor 11; it is registered at index 1.\<close>

theorem emit_descriptors_index_witness:
  "emit_descriptors C0 reach2 [] (Generator LittleEndian) =
     Inr \<lparr>order = LittleEndian, code = [1, 1], defined = [10 \<mapsto> 0, 11 \<mapsto> 1],
          relocations = []\<rparr> \<and>
   (1::nat) < length (entities reach2) \<and>
   descriptor (snd (entities reach2 ! 1)) = 11 \<and>
   defined (Generator LittleEndian) 11 = None \<and>
   defined \<lparr>order = LittleEndian, code = [1, 1], defined = [10 \<mapsto> 0, 11 \<mapsto> 1],
            relocations = []\<rparr> 11 = Some 1"
proof -
  have 1: "(1::nat) < length (entities reach2)"
    by (simp add: reach2_def)
  have 2: "descriptor (snd (entities reach2 ! 1)) = 11"
    by (simp add: reach2_def)
  show ?thesis
    using emit_descriptors_index [OF descriptors2 1] 1 2 descriptors2 by simp
qed

text \<open>
  Claim C10. The count field of the header is the result of \<^verbatim>\<open>truncate<uint16_t>\<close> on
  the number of reachable entities, a 16-bit value. Whatever the narrowing does, a
  header that was emitted for more than 65535 entities does not hold their number, and
  a header that holds the number of entities was emitted for fewer than 65536.
\<close>

theorem emit_program_header_count:
  assumes "emit_program_header C reach gen main_class main_method = Inr gen'"
  shows "\<exists>n. truncate_uint16 C (length (entities reach)) = Inr n \<and>
           drop (length (code gen) + 4) (code gen') = encode (order gen) 2 (unat n) \<and>
           decode (order gen) (drop (length (code gen) + 4) (code gen')) = unat n \<and>
           (65535 < length (entities reach) \<longrightarrow> unat n \<noteq> length (entities reach)) \<and>
           (unat n = length (entities reach) \<longrightarrow> length (entities reach) < 65536)"
proof -
  from assms obtain l and n :: "16 word" where
    n: "truncate_uint16 C (length (entities reach)) = Inr n" and
    g: "gen' = u16 (u32_label gen l) n"
    unfolding emit_program_header_Inr by blast
  have field: "drop (length (code gen) + 4) (code gen') = encode (order gen) 2 (unat n)"
    by (simp add: g code_header)
  have small: "unat n < 65536"
    using unsigned_less [of n, where ?'a = nat] by simp
  then have "decode (order gen) (encode (order gen) 2 (unat n)) = unat n"
    by (simp add: decode_encode)
  with n field small show ?thesis by auto
qed

theorem emit_program_header_count_witness:
  "emit_program_header C0 reach0 (Generator LittleEndian) (fst entry0) (snd entry0) =
     Inr \<lparr>order = LittleEndian, code = [0, 0, 0, 0, 1, 0], defined = Map.empty,
          relocations = [(0, 4, 5)]\<rparr> \<and>
   truncate_uint16 C0 (length (entities reach0)) = Inr 1 \<and>
   decode LittleEndian [1, 0] = length (entities reach0) \<and>
   length (entities reach0) < 65536"
proof -
  have t: "truncate_uint16 C0 (length (entities reach0)) = Inr 1"
    by (simp add: C0_simps reach0_def truncate_checked_def)
  have "length (entities reach0) = 1"
    by (simp add: reach0_def)
  then show ?thesis
    using emit_program_header_count [OF header0] header0 t
    by (simp add: decode_def)
qed

end
